theory Spec2Isabelle
  imports Main "HOL-Library.Product_Lexorder" "HOL-Library.Sublist" "HOL-Library.AList"
begin

section \<open>The record explorer of app.py: date filter and daily counts\<close>

text \<open>
  The first tab of the dashboard (app.py, lines 104 to 123) takes the table fetched from the
  database, keeps the rows whose \<open>created_at\<close> falls between the two dates of the sidebar
  and charts the number of kept rows per day. The code is a handful of pandas calls; each
  one is modelled below by what it does to a frame, under the name it has in the source.
\<close>

subsection \<open>Values, dates and frames\<close>

text \<open>
  A \<open>datetime.date\<close> is the triple (year, month, day); Python compares dates as it compares
  such triples, which is the lexicographic order on products.
\<close>

type_synonym date = "nat \<times> nat \<times> nat"

text \<open>
  A pandas timestamp: the calendar date of its wall clock, the nanoseconds since midnight
  and the offset to UTC of a timezone-aware value (in minutes).
\<close>

record timestamp =
  ts_date :: date
  ts_nanos :: nat
  ts_tz :: "int option"

text \<open>
  The cells of a fetched table. \<open>PyNone\<close> is a null of the database, \<open>PyNaT\<close> the null of a
  datetime column; \<open>PyInt\<close> and \<open>PyStr\<close> stand for the values of any other type.
\<close>

datatype py_value = PyNone | PyInt int | PyStr string | PyTimestamp timestamp | PyNaT

datatype py_error = ValueError | TypeError | AttributeError

text \<open>
  A row of the frame is an ordered mapping from column names to cells and carries its index
  label; a frame has its column names and its rows in the order of the query's answer.
\<close>

type_synonym row = "(string \<times> py_value) list"

record data_frame =
  columns :: "string list"
  rows :: "(nat \<times> row) list"

text \<open>The cell of a row under a column; a cell the row lacks reads as a null.\<close>

definition cell :: "row \<Rightarrow> string \<Rightarrow> py_value" where
  "cell r c = (case map_of r c of None \<Rightarrow> PyNone | Some v \<Rightarrow> v)"

text \<open>\<open>df[col]\<close>: the cells of one column, in row order.\<close>

definition column :: "data_frame \<Rightarrow> string \<Rightarrow> py_value list" where
  "column df col = map (\<lambda>ir. cell (snd ir) col) (rows df)"

text \<open>\<open>df[col] = vs\<close>: the cells of the column are replaced position by position.\<close>

definition set_column :: "data_frame \<Rightarrow> string \<Rightarrow> py_value list \<Rightarrow> data_frame" where
  "set_column df col vs =
     df\<lparr>rows := map (\<lambda>(ir, v). (fst ir, AList.update col v (snd ir))) (zip (rows df) vs)\<rparr>"

subsection \<open>The pandas calls of lines 106 to 108\<close>

text \<open>
  What the parser of the library makes of a cell that is neither a null nor a timestamp:
  it cannot read it, it reads it as a null (the empty string and the other spellings of a
  null), or it reads a timestamp. The parser is not part of the repository and is a
  parameter of the model. It settles the format of the dates on the column as a whole, so
  it reads a cell in the context of its column: \<open>parse vs v\<close> is what it makes of the
  cell \<open>v\<close> of the column \<open>vs\<close>.
\<close>

datatype parsed = Unreadable | Null | Stamp timestamp

text \<open>
  \<open>pd.to_datetime\<close> on one cell, \<open>p\<close> being the parser on the cell's column. A null
  becomes \<open>NaT\<close> and a timestamp stays as it is; any other value goes through the parser.
  A cell that cannot be read makes the call raise (no \<open>errors=\<close> argument is given, so the
  default applies).
\<close>

fun to_datetime_scalar :: "(py_value \<Rightarrow> parsed) \<Rightarrow> py_value \<Rightarrow> py_error + py_value" where
  "to_datetime_scalar p PyNone = Inr PyNaT"
| "to_datetime_scalar p PyNaT = Inr PyNaT"
| "to_datetime_scalar p (PyTimestamp t) = Inr (PyTimestamp t)"
| "to_datetime_scalar p v =
     (case p v of
        Unreadable \<Rightarrow> Inl ValueError
      | Null \<Rightarrow> Inr PyNaT
      | Stamp t \<Rightarrow> Inr (PyTimestamp t))"

text \<open>The cells of a column in turn: the first cell that cannot be read aborts the call.\<close>

fun to_datetime_cells :: "(py_value \<Rightarrow> parsed) \<Rightarrow> py_value list \<Rightarrow> py_error + py_value list" where
  "to_datetime_cells p [] = Inr []"
| "to_datetime_cells p (v # vs) =
     (case to_datetime_scalar p v of
        Inl e \<Rightarrow> Inl e
      | Inr t \<Rightarrow> (case to_datetime_cells p vs of Inl e \<Rightarrow> Inl e | Inr ts \<Rightarrow> Inr (t # ts)))"

text \<open>
  The offsets to UTC of the timestamps of a column. A datetime column has one timezone:
  the timestamps must all be naive or all carry the same offset.
\<close>

fun offsets :: "py_value list \<Rightarrow> int option list" where
  "offsets [] = []"
| "offsets (PyTimestamp t # vs) = ts_tz t # offsets vs"
| "offsets (v # vs) = offsets vs"

definition same_offset :: "py_value list \<Rightarrow> bool" where
  "same_offset vs = (case offsets vs of [] \<Rightarrow> True | z # zs \<Rightarrow> list_all (\<lambda>y. y = z) zs)"

text \<open>
  \<open>pd.to_datetime\<close> on a column: every cell is converted, by the parser on this column,
  and the call raises as well when the timestamps it gets mix offsets, or timestamps with
  an offset and timestamps without.
\<close>

definition to_datetime ::
  "(py_value list \<Rightarrow> py_value \<Rightarrow> parsed) \<Rightarrow> py_value list \<Rightarrow> py_error + py_value list" where
  "to_datetime parse vs =
     (case to_datetime_cells (parse vs) vs of
        Inl e \<Rightarrow> Inl e
      | Inr ts \<Rightarrow> if same_offset ts then Inr ts else Inl ValueError)"

text \<open>
  \<open>.dt.date\<close> on one cell: the calendar date of a timestamp, its time of day and timezone
  dropped; \<open>NaT\<close> has no date. The accessor exists on datetime columns only.
\<close>

fun dt_date_scalar :: "py_value \<Rightarrow> py_error + date option" where
  "dt_date_scalar (PyTimestamp t) = Inr (Some (ts_date t))"
| "dt_date_scalar PyNaT = Inr None"
| "dt_date_scalar v = Inl AttributeError"

fun dt_date :: "py_value list \<Rightarrow> py_error + date option list" where
  "dt_date [] = Inr []"
| "dt_date (v # vs) =
     (case dt_date_scalar v of
        Inl e \<Rightarrow> Inl e
      | Inr d \<Rightarrow> (case dt_date vs of Inl e \<Rightarrow> Inl e | Inr ds \<Rightarrow> Inr (d # ds)))"

text \<open>
  The comparison of a column of dates with one date, \<open>test\<close> being the comparison of two
  dates. The column that \<open>.dt.date\<close> gives holds dates as Python objects, pandas compares
  it cell by cell and a null cell compares false. But when the column has rows and no date
  at all, what \<open>.dt.date\<close> gives is a datetime column of nulls, and its comparison with a
  \<open>datetime.date\<close> raises.
\<close>

definition compare_dates :: "(date \<Rightarrow> bool) \<Rightarrow> date option list \<Rightarrow> py_error + bool list" where
  "compare_dates test ds =
     (if ds \<noteq> [] \<and> list_all (\<lambda>d. d = None) ds then Inl TypeError
      else Inr (map (\<lambda>d. case d of None \<Rightarrow> False | Some x \<Rightarrow> test x) ds))"

definition ge_date :: "date option list \<Rightarrow> date \<Rightarrow> py_error + bool list" where
  "ge_date ds bound = compare_dates (\<lambda>x. bound \<le> x) ds"

definition le_date :: "date option list \<Rightarrow> date \<Rightarrow> py_error + bool list" where
  "le_date ds bound = compare_dates (\<lambda>x. x \<le> bound) ds"

text \<open>Line 107: \<open>mask = (dates >= start_date) & (dates <= end_date)\<close>.\<close>

definition mask :: "date option list \<Rightarrow> date \<Rightarrow> date \<Rightarrow> py_error + bool list" where
  "mask ds start_date end_date =
     (case ge_date ds start_date of
        Inl e \<Rightarrow> Inl e
      | Inr a \<Rightarrow>
          (case le_date ds end_date of
             Inl e \<Rightarrow> Inl e
           | Inr b \<Rightarrow> Inr (map (\<lambda>xy. fst xy \<and> snd xy) (zip a b))))"

text \<open>\<open>df.loc[mask]\<close>: the rows whose position is marked, with their labels, in order.\<close>

definition loc :: "data_frame \<Rightarrow> bool list \<Rightarrow> data_frame" where
  "loc df m = df\<lparr>rows := map fst (filter snd (zip (rows df) m))\<rparr>"

text \<open>
  Line 106, \<open>df[col] = pd.to_datetime(df[col])\<close>: the converted column is written back
  into the frame, or the conversion raises.
\<close>

definition assign_datetime ::
  "(py_value list \<Rightarrow> py_value \<Rightarrow> parsed) \<Rightarrow> data_frame \<Rightarrow> string \<Rightarrow> py_error + data_frame" where
  "assign_datetime parse df col =
     (case to_datetime parse (column df col) of
        Inl e \<Rightarrow> Inl e
      | Inr ts \<Rightarrow> Inr (set_column df col ts))"

text \<open>
  Lines 106 to 108: the mask is computed from the frame that line 106 has changed, and the
  rows it marks are selected.
\<close>

definition df_filtered ::
  "(py_value list \<Rightarrow> py_value \<Rightarrow> parsed) \<Rightarrow> data_frame \<Rightarrow> string \<Rightarrow> date \<Rightarrow> date \<Rightarrow> py_error + data_frame" where
  "df_filtered parse df col start_date end_date =
     (case assign_datetime parse df col of
        Inl e \<Rightarrow> Inl e
      | Inr df1 \<Rightarrow>
          (case dt_date (column df1 col) of
             Inl e \<Rightarrow> Inl e
           | Inr ds \<Rightarrow>
               (case mask ds start_date end_date of
                  Inl e \<Rightarrow> Inl e
                | Inr m \<Rightarrow> Inr (loc df1 m))))"

text \<open>
  Lines 104 and 120 to 123, the table handed to \<open>st.dataframe\<close>: the filtered frame when the
  column is there, the frame as fetched otherwise. The source fixes the column to
  \<open>created_at\<close>; the model takes its name as an argument.
\<close>

definition filterByDateRange ::
  "(py_value list \<Rightarrow> py_value \<Rightarrow> parsed) \<Rightarrow> data_frame \<Rightarrow> string \<Rightarrow> date \<Rightarrow> date \<Rightarrow> py_error + data_frame" where
  "filterByDateRange parse df col start_date end_date =
     (if col \<in> set (columns df) then df_filtered parse df col start_date end_date else Inr df)"

subsection \<open>The daily counts of lines 113 to 118\<close>

text \<open>\<open>df.empty\<close>: one of the two axes has length zero.\<close>

definition df_empty :: "data_frame \<Rightarrow> bool" where
  "df_empty df = (rows df = [] \<or> columns df = [])"

text \<open>
  Line 114: \<open>groupby(dates).size()\<close>. The groups are the distinct dates in ascending order
  (\<open>sort=True\<close> is the default) without the null key (\<open>dropna=True\<close> is the default), each
  with the number of rows that carry the date.
\<close>

definition groupby_size :: "date option list \<Rightarrow> (date \<times> nat) list" where
  "groupby_size ds = map (\<lambda>k. (k, count_list ds (Some k))) (sort (remdups (List.map_filter id ds)))"

definition daily_counts :: "data_frame \<Rightarrow> string \<Rightarrow> py_error + (date \<times> nat) list" where
  "daily_counts df col =
     (case dt_date (column df col) of Inl e \<Rightarrow> Inl e | Inr ds \<Rightarrow> Inr (groupby_size ds))"

text \<open>
  Lines 113 to 118: the series of the chart. For an empty frame the source computes no
  counts and shows a warning in place of the chart; the series is then empty.
\<close>

definition aggregateByDay :: "data_frame \<Rightarrow> string \<Rightarrow> py_error + (date \<times> nat) list" where
  "aggregateByDay df col = (if \<not> df_empty df then daily_counts df col else Inr [])"

subsection \<open>Notions used to state the properties\<close>

text \<open>
  With \<open>p\<close> the parser on a column: whether the conversion can read the cell \<open>v\<close>, the
  cell it puts in its place, and the calendar date that one stands for. A cell that is
  read as a null has no calendar date.
\<close>

definition readable :: "(py_value \<Rightarrow> parsed) \<Rightarrow> py_value \<Rightarrow> bool" where
  "readable p v = (case to_datetime_scalar p v of Inl e \<Rightarrow> False | Inr t \<Rightarrow> True)"

definition normalized :: "(py_value \<Rightarrow> parsed) \<Rightarrow> py_value \<Rightarrow> py_value" where
  "normalized p v = (case to_datetime_scalar p v of Inl e \<Rightarrow> PyNaT | Inr t \<Rightarrow> t)"

definition calendar_date :: "(py_value \<Rightarrow> parsed) \<Rightarrow> py_value \<Rightarrow> date option" where
  "calendar_date p v =
     (case to_datetime_scalar p v of Inr (PyTimestamp t) \<Rightarrow> Some (ts_date t) | _ \<Rightarrow> None)"

definition in_range :: "date option \<Rightarrow> date \<Rightarrow> date \<Rightarrow> bool" where
  "in_range d start_date end_date =
     (case d of None \<Rightarrow> False | Some x \<Rightarrow> start_date \<le> x \<and> x \<le> end_date)"

text \<open>What is left of a row once line 106 has run, and whether line 108 keeps the row.\<close>

definition written_back :: "(py_value \<Rightarrow> parsed) \<Rightarrow> string \<Rightarrow> nat \<times> row \<Rightarrow> nat \<times> row" where
  "written_back p col ir = (fst ir, AList.update col (normalized p (cell (snd ir) col)) (snd ir))"

definition retained :: "(py_value \<Rightarrow> parsed) \<Rightarrow> string \<Rightarrow> date \<Rightarrow> date \<Rightarrow> nat \<times> row \<Rightarrow> bool" where
  "retained p col start_date end_date ir =
     in_range (calendar_date p (cell (snd ir) col)) start_date end_date"

subsection \<open>Sample inputs\<close>

text \<open>
  A parser that reads the ISO spelling of three days of 2024 in any column, reads the
  empty string as a null and reads nothing else; the library rejects the string \<open>abc\<close>
  as this one does.
\<close>

definition midnight :: "date \<Rightarrow> timestamp" where
  "midnight d = \<lparr>ts_date = d, ts_nanos = 0, ts_tz = None\<rparr>"

definition sample_parse :: "py_value list \<Rightarrow> py_value \<Rightarrow> parsed" where
  "sample_parse vs v =
     (if v = PyStr ''2024-01-01'' then Stamp (midnight (2024, 1, 1))
      else if v = PyStr ''2024-01-03'' then Stamp (midnight (2024, 1, 3))
      else if v = PyStr ''2024-02-15'' then Stamp (midnight (2024, 2, 15))
      else if v = PyStr [] then Null
      else Unreadable)"

text \<open>The table of the specification's first scenario, with one more column.\<close>

definition sample_df :: data_frame where
  "sample_df = \<lparr>columns = [''id'', ''created_at''],
     rows = [(0, [(''id'', PyInt 7), (''created_at'', PyStr ''2024-01-01'')]),
             (1, [(''id'', PyInt 8), (''created_at'', PyStr ''2024-01-01'')]),
             (2, [(''id'', PyInt 9), (''created_at'', PyStr ''2024-01-03'')])]\<rparr>"

text \<open>A table without the date column.\<close>

definition plain_df :: data_frame where
  "plain_df = \<lparr>columns = [''id''], rows = [(0, [(''id'', PyInt 7)]), (1, [(''id'', PyStr ''abc'')])]\<rparr>"

text \<open>A table with two null dates, one of them an empty string, and a date out of January.\<close>

definition nulls_df :: data_frame where
  "nulls_df = \<lparr>columns = [''created_at''],
     rows = [(0, [(''created_at'', PyNone)]),
             (1, [(''created_at'', PyStr ''2024-01-03'')]),
             (2, [(''created_at'', PyStr ''2024-02-15'')]),
             (3, [(''created_at'', PyStr [])])]\<rparr>"

text \<open>A table whose only date is a null.\<close>

definition all_null_df :: data_frame where
  "all_null_df = \<lparr>columns = [''created_at''], rows = [(0, [(''created_at'', PyNone)])]\<rparr>"

text \<open>A table with a date the library cannot read.\<close>

definition bad_df :: data_frame where
  "bad_df = \<lparr>columns = [''created_at''],
     rows = [(0, [(''created_at'', PyStr ''2024-01-01'')]),
             (1, [(''created_at'', PyStr ''abc'')])]\<rparr>"

text \<open>What the filter leaves of these tables for some ranges of dates.\<close>

definition sample_datetime :: data_frame where
  "sample_datetime = \<lparr>columns = [''id'', ''created_at''],
     rows = [(0, [(''id'', PyInt 7), (''created_at'', PyTimestamp (midnight (2024, 1, 1)))]),
             (1, [(''id'', PyInt 8), (''created_at'', PyTimestamp (midnight (2024, 1, 1)))]),
             (2, [(''id'', PyInt 9), (''created_at'', PyTimestamp (midnight (2024, 1, 3)))])]\<rparr>"

definition nulls_january :: data_frame where
  "nulls_january = \<lparr>columns = [''created_at''],
     rows = [(1, [(''created_at'', PyTimestamp (midnight (2024, 1, 3)))])]\<rparr>"

definition sample_none :: data_frame where
  "sample_none = \<lparr>columns = [''id'', ''created_at''], rows = []\<rparr>"

section \<open>The filter, row by row\<close>

text \<open>
  The pandas calls work on whole columns. The lemmas of this section say what they do to
  each row: line 106 replaces the date cell of every row, and lines 107 and 108 keep the
  rows whose date is in the range.
\<close>

lemma to_datetime_cells_map:
  "to_datetime_cells p (map f rs) = Inr ts \<Longrightarrow>
     ts = map (\<lambda>x. normalized p (f x)) rs \<and> (\<forall>x\<in>set rs. readable p (f x))"
  by (induction rs arbitrary: ts) (auto simp: normalized_def readable_def split: sum.splits)

lemma to_datetime_cells_readable:
  "\<forall>x\<in>set rs. readable p (f x) \<Longrightarrow>
     to_datetime_cells p (map f rs) = Inr (map (\<lambda>x. normalized p (f x)) rs)"
  by (induction rs) (auto simp: normalized_def readable_def split: sum.splits)

lemma to_datetime_map:
  assumes "to_datetime parse (map f rs) = Inr ts"
  shows "ts = map (\<lambda>x. normalized (parse (map f rs)) (f x)) rs"
    and "\<forall>x\<in>set rs. readable (parse (map f rs)) (f x)"
    and "same_offset ts"
proof -
  from assms have c: "to_datetime_cells (parse (map f rs)) (map f rs) = Inr ts" and s: "same_offset ts"
    by (auto simp: to_datetime_def split: sum.splits if_splits)
  from to_datetime_cells_map [OF c] show "ts = map (\<lambda>x. normalized (parse (map f rs)) (f x)) rs"
    and "\<forall>x\<in>set rs. readable (parse (map f rs)) (f x)" by simp_all
  show "same_offset ts" by (rule s)
qed

lemma to_datetime_readable:
  assumes "\<forall>x\<in>set rs. readable (parse (map f rs)) (f x)"
    and "same_offset (map (\<lambda>x. normalized (parse (map f rs)) (f x)) rs)"
  shows "to_datetime parse (map f rs) = Inr (map (\<lambda>x. normalized (parse (map f rs)) (f x)) rs)"
  using assms(2) by (simp add: to_datetime_def to_datetime_cells_readable [OF assms(1)])

lemma cell_update: "cell (AList.update col v r) col = v"
  by (simp add: cell_def update_conv')

lemma zip_map_same: "zip xs (map g xs) = map (\<lambda>x. (x, g x)) xs"
  by (induction xs) auto

lemma assign_datetime_rows:
  assumes "assign_datetime parse df col = Inr df1"
  shows "rows df1 = map (written_back (parse (column df col)) col) (rows df)"
    and "columns df1 = columns df"
    and "\<forall>ir\<in>set (rows df). readable (parse (column df col)) (cell (snd ir) col)"
    and "same_offset (map (\<lambda>ir. normalized (parse (column df col)) (cell (snd ir) col)) (rows df))"
proof -
  from assms obtain ts where t: "to_datetime parse (column df col) = Inr ts"
    and d: "df1 = set_column df col ts"
    by (auto simp: assign_datetime_def split: sum.splits)
  have c: "column df col = map (\<lambda>ir. cell (snd ir) col) (rows df)" by (simp add: column_def)
  from t have t': "to_datetime parse (map (\<lambda>ir. cell (snd ir) col) (rows df)) = Inr ts"
    by (simp add: c)
  note m = to_datetime_map [OF t', folded c]
  show "rows df1 = map (written_back (parse (column df col)) col) (rows df)"
    by (simp add: d set_column_def m(1) zip_map_same written_back_def o_def)
  show "columns df1 = columns df" by (simp add: d set_column_def)
  show "\<forall>ir\<in>set (rows df). readable (parse (column df col)) (cell (snd ir) col)" by (rule m(2))
  show "same_offset (map (\<lambda>ir. normalized (parse (column df col)) (cell (snd ir) col)) (rows df))"
    using m(3) by (simp add: m(1))
qed

lemma dt_date_scalar_normalized:
  "readable p v \<Longrightarrow> dt_date_scalar (normalized p v) = Inr (calendar_date p v)"
  by (cases v) (auto simp: normalized_def calendar_date_def readable_def split: parsed.splits)

lemma dt_date_normalized:
  "\<forall>x\<in>set rs. readable p (f x) \<Longrightarrow>
     dt_date (map (\<lambda>x. normalized p (f x)) rs) = Inr (map (\<lambda>x. calendar_date p (f x)) rs)"
  by (induction rs) (auto simp: dt_date_scalar_normalized)

lemma column_written_back:
  "map (\<lambda>ir. cell (snd ir) col) (map (written_back p col) rs) =
     map (\<lambda>ir. normalized p (cell (snd ir) col)) rs"
  by (simp add: written_back_def cell_update o_def)

lemma filter_zip_map2: "map fst (filter snd (zip (map g xs) (map m xs))) = map g (filter m xs)"
  by (induction xs) auto

lemma zip_map_map_same: "map h (zip (map f xs) (map g xs)) = map (\<lambda>x. h (f x, g x)) xs"
  by (induction xs) auto

lemma mask_conv:
  "mask ds s e =
     (if ds \<noteq> [] \<and> list_all (\<lambda>d. d = None) ds then Inl TypeError
      else Inr (map (\<lambda>d. in_range d s e) ds))"
proof -
  have "(case d of None \<Rightarrow> False | Some x \<Rightarrow> s \<le> x) \<and> (case d of None \<Rightarrow> False | Some x \<Rightarrow> x \<le> e)
        \<longleftrightarrow> in_range d s e" for d
    by (simp add: in_range_def split: option.splits)
  then show ?thesis
    by (simp add: mask_def ge_date_def le_date_def compare_dates_def zip_map_map_same)
qed


lemma all_null_conv:
  "(rs \<noteq> [] \<and> list_all (\<lambda>d. d = None) (map g rs)) = (rs \<noteq> [] \<and> (\<forall>x\<in>set rs. g x = None))"
  by (auto simp: list_all_iff)

lemma df_filtered_rows:
  assumes "df_filtered parse df col s e = Inr df'"
  shows "rows df' = map (written_back (parse (column df col)) col)
                      (filter (retained (parse (column df col)) col s e) (rows df))"
    and "columns df' = columns df"
    and "\<forall>ir\<in>set (rows df). readable (parse (column df col)) (cell (snd ir) col)"
    and "same_offset (map (\<lambda>ir. normalized (parse (column df col)) (cell (snd ir) col)) (rows df))"
    and "rows df = [] \<or> (\<exists>ir\<in>set (rows df). calendar_date (parse (column df col)) (cell (snd ir) col) \<noteq> None)"
proof -
  let ?p = "parse (column df col)"
  from assms obtain df1 ds m where a: "assign_datetime parse df col = Inr df1"
    and d: "dt_date (column df1 col) = Inr ds"
    and k: "mask ds s e = Inr m"
    and r: "df' = loc df1 m"
    by (auto simp: df_filtered_def split: sum.splits)
  note r1 = assign_datetime_rows(1) [OF a] and c1 = assign_datetime_rows(2) [OF a]
    and rd = assign_datetime_rows(3) [OF a] and so = assign_datetime_rows(4) [OF a]
  have "column df1 col = map (\<lambda>ir. normalized ?p (cell (snd ir) col)) (rows df)"
    by (simp add: column_def r1 column_written_back del: map_map)
  with d dt_date_normalized [OF rd] have ds: "ds = map (\<lambda>ir. calendar_date ?p (cell (snd ir) col)) (rows df)"
    by simp
  from k have n: "\<not> (rows df \<noteq> [] \<and> (\<forall>ir\<in>set (rows df). calendar_date ?p (cell (snd ir) col) = None))"
    and m: "m = map (retained ?p col s e) (rows df)"
    by (auto simp: mask_conv ds all_null_conv retained_def split: if_splits)
  show "rows df' = map (written_back ?p col) (filter (retained ?p col s e) (rows df))"
    by (simp add: r loc_def r1 m filter_zip_map2)
  show "columns df' = columns df" by (simp add: r loc_def c1)
  show "\<forall>ir\<in>set (rows df). readable ?p (cell (snd ir) col)" by (rule rd)
  show "same_offset (map (\<lambda>ir. normalized ?p (cell (snd ir) col)) (rows df))" by (rule so)
  show "rows df = [] \<or> (\<exists>ir\<in>set (rows df). calendar_date ?p (cell (snd ir) col) \<noteq> None)"
    using n by blast
qed

lemma df_filtered_returns:
  assumes "\<forall>ir\<in>set (rows df). readable (parse (column df col)) (cell (snd ir) col)"
    and "same_offset (map (\<lambda>ir. normalized (parse (column df col)) (cell (snd ir) col)) (rows df))"
    and "rows df = [] \<or> (\<exists>ir\<in>set (rows df). calendar_date (parse (column df col)) (cell (snd ir) col) \<noteq> None)"
  shows "\<exists>df'. df_filtered parse df col s e = Inr df'"
proof -
  let ?p = "parse (column df col)"
  let ?ts = "map (\<lambda>ir. normalized ?p (cell (snd ir) col)) (rows df)"
  have c: "column df col = map (\<lambda>ir. cell (snd ir) col) (rows df)" by (simp add: column_def)
  have "to_datetime parse (map (\<lambda>ir. cell (snd ir) col) (rows df)) =
          Inr (map (\<lambda>ir. normalized (parse (map (\<lambda>ir. cell (snd ir) col) (rows df))) (cell (snd ir) col)) (rows df))"
    by (rule to_datetime_readable) (use assms(1,2) in \<open>simp_all only: c\<close>)
  then have t: "to_datetime parse (column df col) = Inr ?ts" by (simp only: c)
  have cc: "column (set_column df col ?ts) col = ?ts"
    by (simp add: column_def set_column_def zip_map_same o_def cell_update)
  have "mask (map (\<lambda>ir. calendar_date ?p (cell (snd ir) col)) (rows df)) s e =
          Inr (map (\<lambda>ir. in_range (calendar_date ?p (cell (snd ir) col)) s e) (rows df))"
    using assms(3) by (auto simp: mask_conv all_null_conv o_def)
  then show ?thesis
    by (simp add: df_filtered_def assign_datetime_def t cc dt_date_normalized [OF assms(1)])
qed

lemma filterByDateRange_present:
  "col \<in> set (columns df) \<Longrightarrow>
     filterByDateRange parse df col s e = df_filtered parse df col s e"
  by (simp add: filterByDateRange_def)

lemma retained_timestamp:
  "retained p col s e ir \<Longrightarrow> readable p (cell (snd ir) col) \<Longrightarrow>
     \<exists>t. normalized p (cell (snd ir) col) = PyTimestamp t \<and> s \<le> ts_date t \<and> ts_date t \<le> e"
  by (cases "cell (snd ir) col")
     (auto simp: retained_def in_range_def calendar_date_def normalized_def readable_def
           split: parsed.splits)

lemma cell_written_back:
  "cell (snd (written_back p col ir)) col = normalized p (cell (snd ir) col)"
  by (simp add: written_back_def cell_update)

lemma fst_written_back: "fst (written_back p col ir) = fst ir"
  by (simp add: written_back_def)

text \<open>Rows whose date cell is a timestamp already: the conversion leaves them as they are.\<close>

lemma stamped_facts:
  "readable q (PyTimestamp t)" "normalized q (PyTimestamp t) = PyTimestamp t"
  "calendar_date q (PyTimestamp t) = Some (ts_date t)"
  by (simp_all add: readable_def normalized_def calendar_date_def)

lemma written_back_stamped:
  assumes "map_of (snd ir) col = Some (PyTimestamp t)"
  shows "written_back q col ir = ir"
proof -
  from assms have "cell (snd ir) col = PyTimestamp t" by (simp add: cell_def)
  moreover from assms have "AList.update col (PyTimestamp t) (snd ir) = snd ir" by (rule update_triv)
  ultimately show ?thesis by (simp add: written_back_def stamped_facts)
qed

lemma map_of_written_back:
  "map_of (snd (written_back p col ir)) col = Some (normalized p (cell (snd ir) col))"
  by (simp add: written_back_def update_conv')

lemma set_offsets: "set (offsets vs) = {ts_tz t |t. PyTimestamp t \<in> set vs}"
  by (induction vs rule: offsets.induct) auto

lemma same_offset_iff: "same_offset vs \<longleftrightarrow> (\<forall>a\<in>set (offsets vs). \<forall>b\<in>set (offsets vs). a = b)"
proof (cases "offsets vs")
  case Nil
  then show ?thesis by (simp add: same_offset_def)
next
  case (Cons z zs)
  have "same_offset vs \<longleftrightarrow> (\<forall>y\<in>set zs. y = z)"
    by (simp add: same_offset_def Cons list_all_iff)
  also have "\<dots> \<longleftrightarrow> (\<forall>a\<in>set (z # zs). \<forall>b\<in>set (z # zs). a = b)"
  proof
    assume h: "\<forall>y\<in>set zs. y = z"
    then have a: "\<forall>a\<in>set (z # zs). a = z" by simp
    show "\<forall>a\<in>set (z # zs). \<forall>b\<in>set (z # zs). a = b"
    proof (intro ballI)
      fix a b assume "a \<in> set (z # zs)" "b \<in> set (z # zs)"
      with a have "a = z" "b = z" by blast+
      then show "a = b" by simp
    qed
  next
    assume "\<forall>a\<in>set (z # zs). \<forall>b\<in>set (z # zs). a = b"
    then show "\<forall>y\<in>set zs. y = z" by simp
  qed
  finally show ?thesis by (simp only: Cons)
qed

lemma same_offset_subset: "same_offset vs \<Longrightarrow> set ws \<subseteq> set vs \<Longrightarrow> same_offset ws"
  unfolding same_offset_iff set_offsets by blast

text \<open>The rows of a frame that the filter returns carry a timestamp in the range.\<close>

lemma df_filtered_stamped:
  assumes "df_filtered parse df col s e = Inr df'" and "ir' \<in> set (rows df')"
  shows "\<exists>t. map_of (snd ir') col = Some (PyTimestamp t) \<and> s \<le> ts_date t \<and> ts_date t \<le> e"
proof -
  let ?p = "parse (column df col)"
  from assms(2) obtain ir where i: "ir \<in> set (rows df)" and k: "retained ?p col s e ir"
    and w: "ir' = written_back ?p col ir"
    by (auto simp: df_filtered_rows(1) [OF assms(1)])
  from df_filtered_rows(3) [OF assms(1)] i have "readable ?p (cell (snd ir) col)" by blast
  from retained_timestamp [OF k this] show ?thesis
    by (auto simp: w map_of_written_back)
qed

lemma cell_stamped: "map_of r col = Some v \<Longrightarrow> cell r col = v"
  by (simp add: cell_def)

section \<open>The daily counts\<close>

lemma dt_date_Inr: "dt_date vs = Inr ds \<Longrightarrow> map dt_date_scalar vs = map Inr ds"
  by (induction vs arbitrary: ds) (auto split: sum.splits)

lemma count_list_length_filter: "count_list xs y = length (filter (\<lambda>x. x = y) xs)"
  by (induction xs) auto

lemma count_list_map_inj: "inj f \<Longrightarrow> count_list (map f xs) (f y) = count_list xs y"
  by (induction xs) (auto dest: injD)

lemma set_map_filter_id: "set (List.map_filter id ds) = {d. Some d \<in> set ds}"
  by (induction ds) (auto simp: List.map_filter_simps split: option.splits)

lemma groupby_size_keys: "map fst (groupby_size ds) = sort (remdups (List.map_filter id ds))"
  by (simp add: groupby_size_def o_def)

lemma groupby_size_strict: "sorted_wrt (<) (map fst (groupby_size ds))"
  by (simp add: groupby_size_keys strict_sorted_iff)


lemma groupby_size_set: "fst ` set (groupby_size ds) = {d. Some d \<in> set ds}"
proof -
  have "fst ` set (groupby_size ds) = set (map fst (groupby_size ds))" by simp
  also have "\<dots> = set (List.map_filter id ds)" by (simp only: groupby_size_keys set_sort set_remdups)
  finally show ?thesis by (simp only: set_map_filter_id)
qed

lemma groupby_size_count:
  assumes "(d, n) \<in> set (groupby_size ds)"
  shows "n = count_list ds (Some d) \<and> 0 < n"
proof -
  from assms have n: "n = count_list ds (Some d)" and "d \<in> set (List.map_filter id ds)"
    by (auto simp: groupby_size_def)
  then have "Some d \<in> set ds" by (simp add: set_map_filter_id)
  then have "count_list ds (Some d) \<noteq> 0" by (simp add: count_list_0_iff)
  with n show ?thesis by simp
qed

lemma map_filter_id_Some: "List.map_filter id (map Some ys) = ys"
  by (induction ys) (simp_all add: List.map_filter_simps)

lemma all_Some_conv: "None \<notin> set ds \<Longrightarrow> map Some (List.map_filter id ds) = ds"
proof (induction ds)
  case Nil
  show ?case by (simp add: List.map_filter_simps)
next
  case (Cons a ds)
  then obtain y where "a = Some y" by (cases a) auto
  with Cons show ?case by (simp add: List.map_filter_simps)
qed

lemma groupby_size_sum_Some: "sum_list (map snd (groupby_size (map Some ys))) = length ys"
proof -
  have "sum_list (map snd (groupby_size (map Some ys))) =
        sum_list (map (\<lambda>k. count_list (map Some ys) (Some k)) (sort (remdups ys)))"
    by (simp add: groupby_size_def o_def map_filter_id_Some)
  also have "\<dots> = sum_list (map (count_list ys) (sort (remdups ys)))"
    by (simp add: count_list_map_inj)
  also have "\<dots> = sum (count_list ys) (set (sort (remdups ys)))"
    by (rule sum_list_distinct_conv_sum_set) simp
  also have "\<dots> = length ys"
    by (simp add: sum_count_set)
  finally show ?thesis .
qed

lemma groupby_size_sum:
  assumes "None \<notin> set ds"
  shows "sum_list (map snd (groupby_size ds)) = length ds"
proof -
  from assms have e: "map Some (List.map_filter id ds) = ds" by (rule all_Some_conv)
  have "sum_list (map snd (groupby_size (map Some (List.map_filter id ds)))) =
        length (map Some (List.map_filter id ds))"
    by (simp only: groupby_size_sum_Some length_map)
  then show ?thesis by (simp only: e)
qed

lemma df_filtered_dates:
  assumes "df_filtered parse df col s e = Inr df'"
  shows "\<exists>ds. dt_date (column df' col) = Inr ds \<and> None \<notin> set ds \<and> length ds = length (rows df')"
proof -
  let ?p = "parse (column df col)"
  note r = df_filtered_rows(1) [OF assms] and rd = df_filtered_rows(3) [OF assms]
  let ?rs = "filter (retained ?p col s e) (rows df)"
  have rd': "\<forall>ir\<in>set ?rs. readable ?p (cell (snd ir) col)" using rd by simp
  have "column df' col = map (\<lambda>ir. normalized ?p (cell (snd ir) col)) ?rs"
    by (simp add: column_def r column_written_back del: map_map)
  then have "dt_date (column df' col) = Inr (map (\<lambda>ir. calendar_date ?p (cell (snd ir) col)) ?rs)"
    by (simp add: dt_date_normalized [OF rd'])
  moreover have "None \<notin> set (map (\<lambda>ir. calendar_date ?p (cell (snd ir) col)) ?rs)"
    by (auto simp: retained_def in_range_def split: option.splits)
  moreover have "length (map (\<lambda>ir. calendar_date ?p (cell (snd ir) col)) ?rs) = length (rows df')"
    by (simp add: r)
  ultimately show ?thesis by blast
qed

section \<open>The sample runs\<close>

lemmas run_defs = filterByDateRange_def df_filtered_def assign_datetime_def to_datetime_def
  same_offset_def column_def cell_def set_column_def loc_def mask_def ge_date_def le_date_def
  compare_dates_def sample_parse_def aggregateByDay_def daily_counts_def groupby_size_def
  df_empty_def List.map_filter_simps

lemma run_sample:
  "filterByDateRange sample_parse sample_df ''created_at'' (2024, 1, 1) (2024, 1, 3) = Inr sample_datetime"
  by (simp add: run_defs sample_df_def sample_datetime_def midnight_def)

lemma run_sample_late:
  "filterByDateRange sample_parse sample_df ''created_at'' (2024, 1, 2) (2024, 1, 31) =
     Inr \<lparr>columns = [''id'', ''created_at''],
          rows = [(2, [(''id'', PyInt 9), (''created_at'', PyTimestamp (midnight (2024, 1, 3)))])]\<rparr>"
  by (simp add: run_defs sample_df_def midnight_def)

lemma run_nulls:
  "filterByDateRange sample_parse nulls_df ''created_at'' (2024, 1, 1) (2024, 1, 31) = Inr nulls_january"
  by (simp add: run_defs nulls_df_def nulls_january_def midnight_def)

lemma run_inverted:
  "filterByDateRange sample_parse sample_df ''created_at'' (2024, 2, 1) (2024, 1, 1) = Inr sample_none"
  by (simp add: run_defs sample_df_def sample_none_def midnight_def)

lemma run_counts:
  "aggregateByDay sample_datetime ''created_at'' = Inr [((2024, 1, 1), 2), ((2024, 1, 3), 1)]"
  by (simp add: run_defs sample_datetime_def midnight_def)

lemma sample_has_column: "''created_at'' \<in> set (columns sample_df)"
  by (simp add: sample_df_def)

section \<open>Properties\<close>

text \<open>
  C1. When the date column is there and the filter returns a frame, the rows it keeps are
  the rows whose date cell, converted and cut down to its calendar date, lies between the
  start date and the end date, both included: the labels of the result are the labels of
  those rows of the input, and every row of the result carries such a date. A row with a
  null date has no calendar date and is not kept.
\<close>

theorem filterByDateRange_retains_iff:
  assumes "filterByDateRange parse df col start_date end_date = Inr df'"
    and "col \<in> set (columns df)"
  shows "map fst (rows df') =
           map fst (filter (\<lambda>ir. case calendar_date (parse (column df col)) (cell (snd ir) col) of
                                   None \<Rightarrow> False
                                 | Some d \<Rightarrow> start_date \<le> d \<and> d \<le> end_date) (rows df)) \<and>
         (\<forall>ir\<in>set (rows df'). \<exists>t. cell (snd ir) col = PyTimestamp t \<and>
              start_date \<le> ts_date t \<and> ts_date t \<le> end_date)"
proof -
  let ?p = "parse (column df col)"
  from assms have f: "df_filtered parse df col start_date end_date = Inr df'"
    by (simp add: filterByDateRange_present)
  note r = df_filtered_rows(1) [OF f]
  have p: "retained ?p col start_date end_date =
        (\<lambda>ir. case calendar_date ?p (cell (snd ir) col) of
                 None \<Rightarrow> False | Some d \<Rightarrow> start_date \<le> d \<and> d \<le> end_date)"
    by (rule ext) (simp add: retained_def in_range_def)
  have "map fst (rows df') = map fst (filter (retained ?p col start_date end_date) (rows df))"
    by (simp add: r o_def fst_written_back)
  moreover have "\<forall>ir\<in>set (rows df'). \<exists>t. cell (snd ir) col = PyTimestamp t \<and>
              start_date \<le> ts_date t \<and> ts_date t \<le> end_date"
    using df_filtered_stamped [OF f] by (fastforce dest: cell_stamped)
  ultimately show ?thesis by (simp add: p)
qed

theorem filterByDateRange_retains_iff_witness:
  "''created_at'' \<in> set (columns sample_df) \<and>
   filterByDateRange sample_parse sample_df ''created_at'' (2024, 1, 2) (2024, 1, 31) =
     Inr \<lparr>columns = [''id'', ''created_at''],
          rows = [(2, [(''id'', PyInt 9), (''created_at'', PyTimestamp (midnight (2024, 1, 3)))])]\<rparr> \<and>
   map fst (filter (\<lambda>ir. case calendar_date (sample_parse (column sample_df ''created_at''))
                                (cell (snd ir) ''created_at'') of
                           None \<Rightarrow> False
                         | Some d \<Rightarrow> (2024, 1, 2) \<le> d \<and> d \<le> (2024, 1, 31)) (rows sample_df)) = [2]"
  using filterByDateRange_retains_iff [OF run_sample_late sample_has_column]
    run_sample_late sample_has_column
  by simp

text \<open>
  C2. The rows of the result are a subsequence of the rows of the input: their labels are a
  subsequence of the labels of the input, and the rows themselves are a subsequence of the
  rows of the frame as line 106 leaves it (the input when the date column is absent).
\<close>

theorem filterByDateRange_subseq:
  assumes "filterByDateRange parse df col start_date end_date = Inr df'"
  shows "subseq (map fst (rows df')) (map fst (rows df)) \<and>
         (if col \<in> set (columns df)
          then \<exists>df1. assign_datetime parse df col = Inr df1 \<and> subseq (rows df') (rows df1) \<and>
                 map fst (rows df1) = map fst (rows df)
          else df' = df)"
proof (cases "col \<in> set (columns df)")
  case False
  with assms show ?thesis by (simp add: filterByDateRange_def)
next
  case True
  with assms have f: "df_filtered parse df col start_date end_date = Inr df'"
    by (simp add: filterByDateRange_present)
  then obtain df1 where a: "assign_datetime parse df col = Inr df1"
    by (auto simp: df_filtered_def split: sum.splits)
  note r = df_filtered_rows(1) [OF f]
  note r1 = assign_datetime_rows(1) [OF a]
  have "subseq (rows df') (rows df1)"
    by (simp add: r r1 subseq_map)
  moreover have m: "map fst (rows df1) = map fst (rows df)"
    by (simp add: r1 o_def fst_written_back)
  moreover have "subseq (map fst (rows df')) (map fst (rows df1))"
    using \<open>subseq (rows df') (rows df1)\<close> by (rule subseq_map)
  ultimately show ?thesis using True a by (simp add: m)
qed

theorem filterByDateRange_subseq_witness:
  "filterByDateRange sample_parse nulls_df ''created_at'' (2024, 1, 1) (2024, 1, 31) = Inr nulls_january \<and>
   subseq (map fst (rows nulls_january)) (map fst (rows nulls_df))"
  using filterByDateRange_subseq [OF run_nulls] run_nulls
  by simp

text \<open>
  C3. A table whose columns do not include the date column is returned as it is, whatever
  the two dates are.
\<close>

theorem filterByDateRange_absent_column:
  "col \<notin> set (columns df) \<Longrightarrow> filterByDateRange parse df col start_date end_date = Inr df"
  by (simp add: filterByDateRange_def)

theorem filterByDateRange_absent_column_witness:
  "''created_at'' \<notin> set (columns plain_df) \<and>
   filterByDateRange sample_parse plain_df ''created_at'' (2024, 2, 1) (2024, 1, 1) = Inr plain_df"
  using filterByDateRange_absent_column [of "''created_at''" plain_df sample_parse "(2024, 2, 1)" "(2024, 1, 1)"]
  by (simp add: plain_df_def)

text \<open>
  C4. Filtering the result of the filter again, with the same dates, gives the same frame.
\<close>

theorem filterByDateRange_idempotent:
  assumes "filterByDateRange parse df col start_date end_date = Inr df'"
  shows "filterByDateRange parse df' col start_date end_date = Inr df'"
proof (cases "col \<in> set (columns df)")
  case False
  with assms show ?thesis by (simp add: filterByDateRange_def)
next
  case True
  with assms have f: "df_filtered parse df col start_date end_date = Inr df'"
    by (simp add: filterByDateRange_present)
  let ?p = "parse (column df col)" and ?q = "parse (column df' col)"
  note r = df_filtered_rows(1) [OF f] and c = df_filtered_rows(2) [OF f]
    and so = df_filtered_rows(4) [OF f]
  note st = df_filtered_stamped [OF f]
  have cells: "\<exists>t. cell (snd ir) col = PyTimestamp t" if "ir \<in> set (rows df')" for ir
    using st [OF that] by (auto dest: cell_stamped)
  have rd': "\<forall>ir\<in>set (rows df'). readable ?q (cell (snd ir) col)"
  proof
    fix ir assume "ir \<in> set (rows df')"
    from cells [OF this] obtain t where "cell (snd ir) col = PyTimestamp t" by blast
    then show "readable ?q (cell (snd ir) col)" by (simp add: stamped_facts)
  qed
  have "normalized ?q (cell (snd ir) col) = cell (snd ir) col" if "ir \<in> set (rows df')" for ir
  proof -
    from cells [OF that] obtain t where "cell (snd ir) col = PyTimestamp t" by blast
    then show ?thesis by (simp add: stamped_facts)
  qed
  then have nm: "map (\<lambda>ir. normalized ?q (cell (snd ir) col)) (rows df') = column df' col"
    by (simp add: column_def)
  have "set (column df' col) \<subseteq> set (map (\<lambda>ir. normalized ?p (cell (snd ir) col)) (rows df))"
    by (auto simp: column_def r cell_written_back)
  with so have "same_offset (column df' col)" by (rule same_offset_subset)
  then have so': "same_offset (map (\<lambda>ir. normalized ?q (cell (snd ir) col)) (rows df'))"
    by (simp only: nm)
  have nn: "rows df' = [] \<or> (\<exists>ir\<in>set (rows df'). calendar_date ?q (cell (snd ir) col) \<noteq> None)"
  proof (cases "rows df'")
    case Nil
    then show ?thesis by simp
  next
    case (Cons x xs)
    then have "x \<in> set (rows df')" by simp
    from cells [OF this] obtain t where "cell (snd x) col = PyTimestamp t" by blast
    then have "calendar_date ?q (cell (snd x) col) \<noteq> None" by (simp add: stamped_facts)
    with \<open>x \<in> set (rows df')\<close> show ?thesis by blast
  qed
  from df_filtered_returns [of df' parse col, OF rd' so' nn] obtain df'' where
    f': "df_filtered parse df' col start_date end_date = Inr df''" by blast
  have "rows df'' = map (written_back ?q col) (filter (retained ?q col start_date end_date) (rows df'))"
    by (rule df_filtered_rows(1) [OF f'])
  also have "filter (retained ?q col start_date end_date) (rows df') = rows df'"
  proof -
    have "retained ?q col start_date end_date ir" if "ir \<in> set (rows df')" for ir
      using st [OF that] by (auto simp: retained_def in_range_def stamped_facts dest!: cell_stamped)
    then show ?thesis by (simp add: filter_id_conv)
  qed
  also have "map (written_back ?q col) (rows df') = rows df'"
  proof -
    have "written_back ?q col ir = ir" if "ir \<in> set (rows df')" for ir
      using st [OF that] by (auto intro: written_back_stamped)
    then show ?thesis by (simp add: map_idI)
  qed
  finally have "rows df'' = rows df'" .
  moreover have "columns df'' = columns df'"
    by (rule df_filtered_rows(2) [OF f'])
  ultimately have "df'' = df'" by simp
  with f' True c show ?thesis by (simp add: filterByDateRange_def)
qed

theorem filterByDateRange_idempotent_witness:
  "filterByDateRange sample_parse sample_df ''created_at'' (2024, 1, 1) (2024, 1, 3) = Inr sample_datetime \<and>
   filterByDateRange sample_parse sample_datetime ''created_at'' (2024, 1, 1) (2024, 1, 3) = Inr sample_datetime"
  using filterByDateRange_idempotent [OF run_sample] run_sample
  by simp

text \<open>
  C5, as the claim puts it: with the start date after the end date, the filter of any
  table that has the date column is the table without rows. The code does otherwise on a
  table whose only date is a null: the comparison of line 107 raises, and no table is
  returned.
\<close>

theorem filterByDateRange_inverted_range_raises:
  "(2024, 1, 1) < ((2024, 2, 1) :: date) \<and> ''created_at'' \<in> set (columns all_null_df) \<and>
   filterByDateRange sample_parse all_null_df ''created_at'' (2024, 2, 1) (2024, 1, 1) = Inl TypeError"
  by (simp add: filterByDateRange_def df_filtered_def assign_datetime_def to_datetime_def
      same_offset_def column_def cell_def set_column_def all_null_df_def mask_def ge_date_def
      compare_dates_def)

text \<open>
  C5, amended. With the start date after the end date, whenever the filter of a table with
  the date column returns a frame, that frame has the columns of the table and no row, and
  its series of daily counts is empty.
\<close>

theorem filterByDateRange_inverted_range:
  assumes "end_date < start_date"
    and "col \<in> set (columns df)"
    and "filterByDateRange parse df col start_date end_date = Inr df'"
  shows "rows df' = [] \<and> columns df' = columns df \<and> aggregateByDay df' col = Inr []"
proof -
  from assms have f: "df_filtered parse df col start_date end_date = Inr df'"
    by (simp add: filterByDateRange_present)
  have "\<not> retained p col start_date end_date ir" for p ir
    using assms(1) by (auto simp: retained_def in_range_def split: option.splits)
  then have "rows df' = []"
    by (simp add: df_filtered_rows(1) [OF f])
  then show ?thesis
    by (simp add: df_filtered_rows(2) [OF f] aggregateByDay_def df_empty_def)
qed

theorem filterByDateRange_inverted_range_witness:
  "(2024, 1, 1) < ((2024, 2, 1) :: date) \<and>
   filterByDateRange sample_parse sample_df ''created_at'' (2024, 2, 1) (2024, 1, 1) = Inr sample_none \<and>
   rows sample_none = [] \<and> aggregateByDay sample_none ''created_at'' = Inr []"
proof -
  have i: "(2024, 1, 1) < ((2024, 2, 1) :: date)" by simp
  from filterByDateRange_inverted_range [OF i sample_has_column run_inverted] i run_inverted
  show ?thesis by simp
qed

text \<open>
  C6. The daily counts of a filtered table are in strictly ascending order of date, so no
  date comes twice; their dates are the dates that some row of the table carries, and each
  count is the number of rows with that date, which is never zero.
\<close>

theorem aggregateByDay_strictly_ascending:
  assumes "filterByDateRange parse df col start_date end_date = Inr df'"
    and "col \<in> set (columns df)"
  shows "\<exists>cs. aggregateByDay df' col = Inr cs \<and>
           sorted_wrt (<) (map fst cs) \<and>
           set (map fst cs) = {d. \<exists>ir\<in>set (rows df'). dt_date_scalar (cell (snd ir) col) = Inr (Some d)} \<and>
           (\<forall>dn\<in>set cs. snd dn = length (filter (\<lambda>ir. dt_date_scalar (cell (snd ir) col) = Inr (Some (fst dn))) (rows df')) \<and>
                 0 < snd dn)"
proof -
  from assms have f: "df_filtered parse df col start_date end_date = Inr df'"
    by (simp add: filterByDateRange_present)
  from df_filtered_dates [OF f] obtain ds where d: "dt_date (column df' col) = Inr ds" by blast
  have c: "columns df' \<noteq> []" using assms(2) by (auto simp: df_filtered_rows(2) [OF f])
  have m: "map (\<lambda>ir. dt_date_scalar (cell (snd ir) col)) (rows df') = map Inr ds"
    using dt_date_Inr [OF d] by (simp add: column_def o_def)
  have cnt: "count_list ds x = length (filter (\<lambda>ir. dt_date_scalar (cell (snd ir) col) = Inr x) (rows df'))" for x
  proof -
    have "count_list ds x = count_list (map Inr ds) (Inr x :: py_error + date option)"
      by (simp add: count_list_map_inj)
    also have "\<dots> = length (filter (\<lambda>ir. dt_date_scalar (cell (snd ir) col) = Inr x) (rows df'))"
      by (simp only: m [symmetric] count_list_length_filter filter_map length_map o_def)
    finally show ?thesis .
  qed
  have mem: "(x \<in> set ds) = (\<exists>ir\<in>set (rows df'). dt_date_scalar (cell (snd ir) col) = Inr x)" for x
  proof -
    have "(x \<in> set ds) = ((Inr x :: py_error + date option) \<in> set (map Inr ds))" by auto
    also have "\<dots> = (\<exists>ir\<in>set (rows df'). dt_date_scalar (cell (snd ir) col) = Inr x)"
      by (simp only: m [symmetric] set_map) force
    finally show ?thesis .
  qed
  show ?thesis
  proof (cases "rows df' = []")
    case True
    then show ?thesis by (simp add: aggregateByDay_def df_empty_def)
  next
    case False
    with c have a: "aggregateByDay df' col = Inr (groupby_size ds)"
      by (simp add: aggregateByDay_def df_empty_def daily_counts_def d)
    have "set (map fst (groupby_size ds)) =
            {d. \<exists>ir\<in>set (rows df'). dt_date_scalar (cell (snd ir) col) = Inr (Some d)}"
      using groupby_size_set [of ds] by (simp add: mem)
    moreover have "\<forall>dn\<in>set (groupby_size ds).
        snd dn = length (filter (\<lambda>ir. dt_date_scalar (cell (snd ir) col) = Inr (Some (fst dn))) (rows df')) \<and>
        0 < snd dn"
      using groupby_size_count [of _ _ ds] by (auto simp: cnt)
    ultimately show ?thesis using a groupby_size_strict [of ds] by blast
  qed
qed

theorem aggregateByDay_strictly_ascending_witness:
  "filterByDateRange sample_parse sample_df ''created_at'' (2024, 1, 1) (2024, 1, 3) = Inr sample_datetime \<and>
   aggregateByDay sample_datetime ''created_at'' = Inr [((2024, 1, 1), 2), ((2024, 1, 3), 1)] \<and>
   sorted_wrt (<) (map fst [(((2024, 1, 1) :: date), 2 :: nat), ((2024, 1, 3), 1)])"
  using aggregateByDay_strictly_ascending [OF run_sample sample_has_column] run_sample
  by (simp add: run_counts)

text \<open>
  C7. The daily counts of a filtered table add up to the number of its rows.
\<close>

theorem aggregateByDay_sum_counts:
  assumes "filterByDateRange parse df col start_date end_date = Inr df'"
    and "col \<in> set (columns df)"
  shows "\<exists>cs. aggregateByDay df' col = Inr cs \<and> sum_list (map snd cs) = length (rows df')"
proof -
  from assms have f: "df_filtered parse df col start_date end_date = Inr df'"
    by (simp add: filterByDateRange_present)
  from df_filtered_dates [OF f] obtain ds where d: "dt_date (column df' col) = Inr ds"
    and n: "None \<notin> set ds" and l: "length ds = length (rows df')" by blast
  have c: "columns df' \<noteq> []" using assms(2) by (auto simp: df_filtered_rows(2) [OF f])
  show ?thesis
  proof (cases "rows df' = []")
    case True
    then show ?thesis by (simp add: aggregateByDay_def df_empty_def)
  next
    case False
    with c have "aggregateByDay df' col = Inr (groupby_size ds)"
      by (simp add: aggregateByDay_def df_empty_def daily_counts_def d)
    then show ?thesis using groupby_size_sum [OF n] l by simp
  qed
qed

theorem aggregateByDay_sum_counts_witness:
  "filterByDateRange sample_parse sample_df ''created_at'' (2024, 1, 1) (2024, 1, 3) = Inr sample_datetime \<and>
   aggregateByDay sample_datetime ''created_at'' = Inr [((2024, 1, 1), 2), ((2024, 1, 3), 1)] \<and>
   sum_list (map snd [(((2024, 1, 1) :: date), 2 :: nat), ((2024, 1, 3), 1)]) = length (rows sample_datetime)"
  using aggregateByDay_sum_counts [OF run_sample sample_has_column] run_sample
  by (simp add: run_counts)

text \<open>
  C8. The daily counts of an empty table are the empty series, not an error.
\<close>

theorem aggregateByDay_empty:
  "df_empty df \<Longrightarrow> aggregateByDay df col = Inr []"
  by (simp add: aggregateByDay_def)

theorem aggregateByDay_empty_witness:
  "df_empty sample_none \<and> aggregateByDay sample_none ''created_at'' = Inr []"
proof -
  have e: "df_empty sample_none" by (simp add: df_empty_def sample_none_def)
  from aggregateByDay_empty [OF e] e show ?thesis by simp
qed

text \<open>
  C9, as the claim puts it: no input makes the computation fail, and a date the library
  cannot read is left out of the result. The code does otherwise: one such date in the
  column makes line 106 raise, and no table is returned.
\<close>

theorem filterByDateRange_aborts_on_unreadable:
  "\<not> readable (sample_parse (column bad_df ''created_at'')) (PyStr ''abc'') \<and>
   filterByDateRange sample_parse bad_df ''created_at'' (2024, 1, 1) (2024, 1, 31) = Inl ValueError"
  by (simp add: readable_def filterByDateRange_def df_filtered_def assign_datetime_def
      to_datetime_def bad_df_def column_def cell_def sample_parse_def)

text \<open>
  C9, amended. The filter returns a table exactly when the date column is absent, or the
  library can read every cell of the column (nulls included), the timestamps it gets have
  one offset, and the column is empty or holds a date that is not null. On the table it
  returns the daily counts are computed without an error, and every row of it carries a
  timestamp: the rows with a null date are left out.
\<close>

theorem filterByDateRange_returns_iff:
  "((\<exists>df'. filterByDateRange parse df col start_date end_date = Inr df') \<longleftrightarrow>
      (col \<in> set (columns df) \<longrightarrow>
         list_all (readable (parse (column df col))) (column df col) \<and>
         same_offset (map (normalized (parse (column df col))) (column df col)) \<and>
         (column df col = [] \<or>
          \<not> list_all (\<lambda>v. calendar_date (parse (column df col)) v = None) (column df col)))) \<and>
   (\<forall>df'. filterByDateRange parse df col start_date end_date = Inr df' \<longrightarrow> col \<in> set (columns df) \<longrightarrow>
      (\<exists>cs. aggregateByDay df' col = Inr cs) \<and>
      (\<forall>ir\<in>set (rows df'). \<exists>t. cell (snd ir) col = PyTimestamp t))"
proof (intro conjI)
  let ?p = "parse (column df col)"
  have l1: "list_all (readable ?p) (column df col) \<longleftrightarrow>
        (\<forall>ir\<in>set (rows df). readable ?p (cell (snd ir) col))"
    by (simp add: column_def list_all_iff)
  have l2: "map (normalized ?p) (column df col) = map (\<lambda>ir. normalized ?p (cell (snd ir) col)) (rows df)"
    by (simp add: column_def)
  have l3: "(column df col = [] \<or> \<not> list_all (\<lambda>v. calendar_date ?p v = None) (column df col)) \<longleftrightarrow>
        (rows df = [] \<or> (\<exists>ir\<in>set (rows df). calendar_date ?p (cell (snd ir) col) \<noteq> None))"
    by (simp add: column_def list_all_iff)
  show "(\<exists>df'. filterByDateRange parse df col start_date end_date = Inr df') \<longleftrightarrow>
      (col \<in> set (columns df) \<longrightarrow>
         list_all (readable ?p) (column df col) \<and>
         same_offset (map (normalized ?p) (column df col)) \<and>
         (column df col = [] \<or> \<not> list_all (\<lambda>v. calendar_date ?p v = None) (column df col)))"
  proof (cases "col \<in> set (columns df)")
    case False
    then show ?thesis by (simp add: filterByDateRange_def)
  next
    case True
    have "(\<exists>df'. df_filtered parse df col start_date end_date = Inr df') \<longleftrightarrow>
          (\<forall>ir\<in>set (rows df). readable ?p (cell (snd ir) col)) \<and>
          same_offset (map (\<lambda>ir. normalized ?p (cell (snd ir) col)) (rows df)) \<and>
          (rows df = [] \<or> (\<exists>ir\<in>set (rows df). calendar_date ?p (cell (snd ir) col) \<noteq> None))"
      using df_filtered_returns [of df parse col start_date end_date]
        df_filtered_rows(3,4,5) [of parse df col start_date end_date] by blast
    with True show ?thesis by (simp only: filterByDateRange_present l1 l2 l3) simp
  qed
next
  show "\<forall>df'. filterByDateRange parse df col start_date end_date = Inr df' \<longrightarrow> col \<in> set (columns df) \<longrightarrow>
      (\<exists>cs. aggregateByDay df' col = Inr cs) \<and>
      (\<forall>ir\<in>set (rows df'). \<exists>t. cell (snd ir) col = PyTimestamp t)"
  proof (intro allI impI)
    fix df'
    assume a: "filterByDateRange parse df col start_date end_date = Inr df'"
      and c: "col \<in> set (columns df)"
    then have f: "df_filtered parse df col start_date end_date = Inr df'"
      by (simp add: filterByDateRange_present)
    from df_filtered_dates [OF f] obtain ds where d: "dt_date (column df' col) = Inr ds" by blast
    have "\<exists>cs. aggregateByDay df' col = Inr cs"
      by (simp add: aggregateByDay_def daily_counts_def d)
    moreover have "\<forall>ir\<in>set (rows df'). \<exists>t. cell (snd ir) col = PyTimestamp t"
      using df_filtered_stamped [OF f] by (fastforce dest: cell_stamped)
    ultimately show "(\<exists>cs. aggregateByDay df' col = Inr cs) \<and>
      (\<forall>ir\<in>set (rows df'). \<exists>t. cell (snd ir) col = PyTimestamp t)" by simp
  qed
qed

theorem filterByDateRange_returns_iff_witness:
  "filterByDateRange sample_parse nulls_df ''created_at'' (2024, 1, 1) (2024, 1, 31) = Inr nulls_january \<and>
   list_all (readable (sample_parse (column nulls_df ''created_at''))) (column nulls_df ''created_at'') \<and>
   (\<exists>cs. aggregateByDay nulls_january ''created_at'' = Inr cs)"
proof -
  have c: "''created_at'' \<in> set (columns nulls_df)" by (simp add: nulls_df_def)
  from filterByDateRange_returns_iff
         [of sample_parse nulls_df "''created_at''" "(2024, 1, 1)" "(2024, 1, 31)"]
  show ?thesis using run_nulls c by simp
qed

text \<open>
  C10. Every row of the result comes from a row of the input with the same label: its
  cells under the other columns are those of the input row, its date cell is the converted
  date cell of the input row, and its column order is the one of the input row.
\<close>

theorem filterByDateRange_frame:
  assumes "filterByDateRange parse df col start_date end_date = Inr df'"
    and "col \<in> set (columns df)"
  shows "columns df' = columns df \<and>
         (\<forall>ir'\<in>set (rows df'). \<exists>ir\<in>set (rows df).
            fst ir' = fst ir \<and>
            (\<forall>c. c \<noteq> col \<longrightarrow> map_of (snd ir') c = map_of (snd ir) c) \<and>
            (\<exists>v. to_datetime_scalar (parse (column df col)) (cell (snd ir) col) = Inr v \<and>
                 map_of (snd ir') col = Some v) \<and>
            (col \<in> fst ` set (snd ir) \<longrightarrow> map fst (snd ir') = map fst (snd ir)))"
proof -
  let ?p = "parse (column df col)"
  from assms have f: "df_filtered parse df col start_date end_date = Inr df'"
    by (simp add: filterByDateRange_present)
  note r = df_filtered_rows(1) [OF f] and c = df_filtered_rows(2) [OF f]
    and rd = df_filtered_rows(3) [OF f]
  have "\<exists>ir\<in>set (rows df).
            fst ir' = fst ir \<and>
            (\<forall>c. c \<noteq> col \<longrightarrow> map_of (snd ir') c = map_of (snd ir) c) \<and>
            (\<exists>v. to_datetime_scalar ?p (cell (snd ir) col) = Inr v \<and>
                 map_of (snd ir') col = Some v) \<and>
            (col \<in> fst ` set (snd ir) \<longrightarrow> map fst (snd ir') = map fst (snd ir))"
    if "ir' \<in> set (rows df')" for ir'
  proof -
    from that obtain ir where i: "ir \<in> set (rows df)" and w: "ir' = written_back ?p col ir"
      by (auto simp: r)
    from rd i have "readable ?p (cell (snd ir) col)" by blast
    then have "to_datetime_scalar ?p (cell (snd ir) col) = Inr (normalized ?p (cell (snd ir) col))"
      by (simp add: readable_def normalized_def split: sum.splits)
    then show ?thesis using i
      by (intro bexI [of _ ir]) (auto simp: w written_back_def update_conv' update_keys)
  qed
  with c show ?thesis by blast
qed

theorem filterByDateRange_frame_witness:
  "filterByDateRange sample_parse sample_df ''created_at'' (2024, 1, 1) (2024, 1, 3) = Inr sample_datetime \<and>
   ''created_at'' \<in> set (columns sample_df) \<and>
   columns sample_datetime = columns sample_df"
  using filterByDateRange_frame [OF run_sample sample_has_column] run_sample sample_has_column
  by simp

end
